theory Spec2Isabelle
  imports Main "HOL-Library.AList"
begin

section \<open>The type graph supplied by the compiler\<close>

text \<open>
  The emitter of \<^verbatim>\<open>src/index.ts\<close> walks the compiler's type graph. Type objects are
  compared by identity (they are the keys of a JavaScript \<^verbatim>\<open>Map\<close>), and the graph may
  contain cycles, so a type is an address \<open>tid\<close> and the graph is a store from addresses
  to nodes.
\<close>

type_synonym tid = nat

datatype ModelTypeProperty =
  ModelTypeProperty (propName: string) (optional: bool) (propType: tid)

text \<open>
  The kinds the emitter distinguishes. \<open>properties\<close> is the model's property map in
  iteration (insertion) order; \<open>templateArguments\<close> is \<open>None\<close> where the source
  field is \<^verbatim>\<open>undefined\<close>. A numeric literal carries the text of
  \<^verbatim>\<open>value.toString()\<close>. Every other kind of the compiler is \<open>OtherType\<close>, with its
  \<^verbatim>\<open>name\<close> field where the kind has one.
\<close>

datatype Type =
    ModelType (name: string) (properties: "ModelTypeProperty list")
      (templateArguments: "tid list option")
  | ArrayType (elementType: tid)
  | NumericLiteralType (valueToString: string)
  | UnionType (options: "tid list")
  | OtherType "string option"

text \<open>
  What the decorator state map of a program holds for a registered type: the source
  declares the values as \<^verbatim>\<open>any\<close>.
\<close>

datatype StoreValue = Undefined | BoolVal bool | StrVal string

text \<open>
  The program: the type store, the compiler's \<^verbatim>\<open>getIntrinsicModelName(p, type)\<close>
  (a function of the compiler, taken as given), the state map under \<^verbatim>\<open>storeKey\<close> in
  insertion order, and \<^verbatim>\<open>compilerOptions.outputPath\<close>.
\<close>

record Program =
  types :: "tid \<Rightarrow> Type"
  getIntrinsicModelName :: "tid \<Rightarrow> string option"
  stateMap :: "(tid \<times> StoreValue) list"
  outputPath :: string

record DataStoreEmitterOptions =
  outputDir :: string

section \<open>Results, errors and effects\<close>

text \<open>
  The two \<^verbatim>\<open>throw new Error(...)\<close> of the source. \<open>UnknownIntrinsic n\<close> is the error
  with message \<^verbatim>\<open>"Unknown intrinsic type " + n\<close>; \<open>UnsupportedTemplateArgument\<close> is the
  one thrown by name synthesis.
\<close>

datatype error = UnknownIntrinsic string | UnsupportedTemplateArgument

text \<open>
  The recursion of the resolver follows the type graph and need not end, so every
  recursive function takes a bound on the depth of calls: \<open>Diverge\<close> is the value of a
  call that needs a deeper recursion than the bound.
\<close>

datatype 'a result = Ok 'a | Throw error | Diverge

fun andThen :: "'a result \<Rightarrow> ('a \<Rightarrow> 'b result) \<Rightarrow> 'b result" where
  "andThen (Ok x) f = f x"
| "andThen (Throw e) f = Throw e"
| "andThen Diverge f = Diverge"

datatype FsEvent = Mkdir string | WriteFile string string

text \<open>The mutable variables closed over by the emitter.\<close>

record EmitterState =
  typeDecls :: "string list"
  knownTypes :: "tid \<rightharpoonup> string"

section \<open>The emitter\<close>

definition store :: "Program \<Rightarrow> tid \<Rightarrow> Program" where
  "store program t = program\<lparr>stateMap := AList.update t (BoolVal False) (stateMap program)\<rparr>"

definition instrinsicNameToTSType :: "(string \<times> string) list" where
  "instrinsicNameToTSType =
    [(''string'', ''string''),
     (''int32'', ''number''),
     (''int16'', ''number''),
     (''float16'', ''number''),
     (''float32'', ''number''),
     (''int64'', ''bigint''),
     (''boolean'', ''boolean'')]"

text \<open>\<^verbatim>\<open>Array.prototype.join\<close>.\<close>

fun join :: "string \<Rightarrow> string list \<Rightarrow> string" where
  "join sep [] = []"
| "join sep [x] = x"
| "join sep (x # y # ys) = x @ sep @ join sep (y # ys)"

text \<open>The truth value JavaScript gives to a \<^verbatim>\<open>string | undefined\<close>.\<close>

fun truthy :: "string option \<Rightarrow> bool" where
  "truthy None = False"
| "truthy (Some n) = (n \<noteq> [])"

text \<open>
  \<^verbatim>\<open>getModelDeclarationName\<close>, on the \<^verbatim>\<open>name\<close> and \<^verbatim>\<open>templateArguments\<close> of a
  model. \<open>parameterName\<close> is the function mapped over the template arguments and
  \<open>parameterNames\<close> the \<^verbatim>\<open>map\<close>, which stops at the first argument that throws; their
  first argument is the function they call for a nested name,
  \<open>getModelDeclarationName\<close> at the remaining depth.
\<close>

definition parameterName ::
  "(string \<Rightarrow> tid list option \<Rightarrow> string result) \<Rightarrow> Program \<Rightarrow> tid \<Rightarrow> string result" where
  "parameterName declName p t =
     (case types p t of
        ModelType nm' ps' targs' \<Rightarrow> declName nm' targs'
      | ArrayType e \<Rightarrow>
          (case types p e of
             ModelType nm' ps' targs' \<Rightarrow> andThen (declName nm' targs') (\<lambda>x. Ok (x @ ''Array''))
           | _ \<Rightarrow> Throw UnsupportedTemplateArgument)
      | _ \<Rightarrow> Throw UnsupportedTemplateArgument)"

fun parameterNames ::
  "(string \<Rightarrow> tid list option \<Rightarrow> string result) \<Rightarrow> Program \<Rightarrow> tid list \<Rightarrow> string list result" where
  "parameterNames declName p [] = Ok []"
| "parameterNames declName p (t # ts) =
     andThen (parameterName declName p t) (\<lambda>x.
     andThen (parameterNames declName p ts) (\<lambda>xs. Ok (x # xs)))"

primrec getModelDeclarationName :: "nat \<Rightarrow> Program \<Rightarrow> string \<Rightarrow> tid list option \<Rightarrow> string result" where
  "getModelDeclarationName 0 p = (\<lambda>nm targs. Diverge)"
| "getModelDeclarationName (Suc n) p = (\<lambda>nm targs.
     case targs of
       None \<Rightarrow> Ok nm
     | Some ts \<Rightarrow>
         if ts = [] then Ok nm
         else andThen (parameterNames (getModelDeclarationName n p) p ts) (\<lambda>ns. Ok (nm @ concat ns)))"

text \<open>The text of one property inside an interface declaration.\<close>

definition propText :: "ModelTypeProperty \<Rightarrow> string \<Rightarrow> string" where
  "propText prop ref = propName prop @ (if optional prop then ''?'' else '''') @ '': '' @ ref"

definition typeStr :: "string \<Rightarrow> string list \<Rightarrow> string" where
  "typeStr typeRef props =
     ''interface '' @ typeRef @ '' {'' @ [CHR 0x0A] @
     ''      '' @ join '','' props @ [CHR 0x0A] @
     ''    }''"

text \<open>
  \<^verbatim>\<open>getTypeReference\<close>, \<^verbatim>\<open>generateArrayType\<close> and \<^verbatim>\<open>generateModelType\<close>, threading the
  emitter's state. \<open>optionRefs\<close> is \<^verbatim>\<open>type.options.map(getTypeReference)\<close> and
  \<open>propRefs\<close> the loop over \<^verbatim>\<open>type.properties.values()\<close>. The functions that
  \<open>getTypeReference\<close> calls take as their first argument the function they call back,
  \<open>getTypeReference\<close> at the remaining depth; each call of \<open>getTypeReference\<close> uses one
  unit of the depth bound, and so does each call of \<open>getModelDeclarationName\<close>.
\<close>

type_synonym resolver = "EmitterState \<Rightarrow> tid \<Rightarrow> (string \<times> EmitterState) result"

fun optionRefs :: "resolver \<Rightarrow> EmitterState \<Rightarrow> tid list \<Rightarrow> (string list \<times> EmitterState) result" where
  "optionRefs ref s [] = Ok ([], s)"
| "optionRefs ref s (t # ts) =
     andThen (ref s t) (\<lambda>(r, s1).
     andThen (optionRefs ref s1 ts) (\<lambda>(rs, s2). Ok (r # rs, s2)))"

fun propRefs ::
  "resolver \<Rightarrow> EmitterState \<Rightarrow> ModelTypeProperty list \<Rightarrow> (string list \<times> EmitterState) result" where
  "propRefs ref s [] = Ok ([], s)"
| "propRefs ref s (prop # rest) =
     andThen (ref s (propType prop)) (\<lambda>(r, s1).
     andThen (propRefs ref s1 rest) (\<lambda>(rs, s2). Ok (propText prop r # rs, s2)))"

definition generateArrayType :: "resolver \<Rightarrow> EmitterState \<Rightarrow> tid \<Rightarrow> (string \<times> EmitterState) result" where
  "generateArrayType ref s e = andThen (ref s e) (\<lambda>(r, s'). Ok (r @ ''[]'', s'))"

definition generateModelType ::
  "resolver \<Rightarrow> (string \<Rightarrow> tid list option \<Rightarrow> string result) \<Rightarrow> Program \<Rightarrow> EmitterState \<Rightarrow> tid
    \<Rightarrow> string \<Rightarrow> ModelTypeProperty list \<Rightarrow> tid list option \<Rightarrow> (string \<times> EmitterState) result" where
  "generateModelType ref declName p s t nm props targs =
     (if truthy (getIntrinsicModelName p t) then
        (case map_of instrinsicNameToTSType (the (getIntrinsicModelName p t)) of
           None \<Rightarrow> Throw (UnknownIntrinsic (the (getIntrinsicModelName p t)))
         | Some ts \<Rightarrow> Ok (ts, s))
      else
        andThen (propRefs ref s props) (\<lambda>(prs, s1).
        andThen (declName nm targs) (\<lambda>typeRef.
          Ok (typeRef,
              s1\<lparr>typeDecls := typeDecls s1 @ [typeStr typeRef prs],
                 knownTypes := (knownTypes s1)(t \<mapsto> typeRef)\<rparr>))))"

primrec getTypeReference :: "nat \<Rightarrow> Program \<Rightarrow> resolver" where
  "getTypeReference 0 p = (\<lambda>s t. Diverge)"
| "getTypeReference (Suc n) p = (\<lambda>s t.
     case knownTypes s t of
       Some r \<Rightarrow> Ok (r, s)
     | None \<Rightarrow>
         (case types p t of
            ModelType nm props targs \<Rightarrow>
              generateModelType (getTypeReference n p) (getModelDeclarationName n p) p s t nm props targs
          | ArrayType e \<Rightarrow> generateArrayType (getTypeReference n p) s e
          | NumericLiteralType v \<Rightarrow> Ok (v, s)
          | UnionType os \<Rightarrow>
              andThen (optionRefs (getTypeReference n p) s os) (\<lambda>(rs, s'). Ok (join ''|'' rs, s'))
          | OtherType x \<Rightarrow> Ok (''{}'', s)))"

section \<open>The store declaration builder\<close>

text \<open>
  The \<^verbatim>\<open>name\<close> field of a type object, absent for the kinds that have none, and what
  string interpolation and concatenation make of it.
\<close>

fun nameField :: "Type \<Rightarrow> string option" where
  "nameField (ModelType nm props targs) = Some nm"
| "nameField (OtherType x) = x"
| "nameField other = None"

fun nameText :: "Type \<Rightarrow> string" where
  "nameText ty = (case nameField ty of None \<Rightarrow> ''undefined'' | Some nm \<Rightarrow> nm)"

text \<open>The template literal of \<^verbatim>\<open>emitStoreInterface\<close>, with \<^verbatim>\<open>model.name\<close> filled in.\<close>

definition storeCode :: "string \<Rightarrow> string" where
  \<open>storeCode modelName =
     [CHR 0x0A] @
     ''    import { CosmosClient, Database, Container } from "@azure/cosmos";'' @ [CHR 0x0A] @
     [CHR 0x0A] @
     ''    class '' @ modelName @ ''Store {'' @ [CHR 0x0A] @
     ''      private client: CosmosClient;'' @ [CHR 0x0A] @
     ''      private databaseId: string;'' @ [CHR 0x0A] @
     ''      private containerId: string;'' @ [CHR 0x0A] @
     ''      private container!: Container;'' @ [CHR 0x0A] @
     ''      private database!: Database;'' @ [CHR 0x0A] @
     ''      constructor(client: CosmosClient, databaseId: string, containerId: string) {'' @ [CHR 0x0A] @
     ''        this.client = client;'' @ [CHR 0x0A] @
     ''        this.databaseId = databaseId;'' @ [CHR 0x0A] @
     ''        this.containerId = containerId;'' @ [CHR 0x0A] @
     ''      }'' @ [CHR 0x0A] @
     ''    '' @ [CHR 0x0A] @
     ''      async init() {'' @ [CHR 0x0A] @
     ''        const { database } = await this.client.databases.createIfNotExists({'' @ [CHR 0x0A] @
     ''          id: this.databaseId,'' @ [CHR 0x0A] @
     ''        });'' @ [CHR 0x0A] @
     ''        const { container } = await database.containers.createIfNotExists({'' @ [CHR 0x0A] @
     ''          id: this.containerId,'' @ [CHR 0x0A] @
     ''        });'' @ [CHR 0x0A] @
     ''        this.database = database;'' @ [CHR 0x0A] @
     ''        this.container = container;'' @ [CHR 0x0A] @
     ''      }'' @ [CHR 0x0A] @
     ''    '' @ [CHR 0x0A] @
     ''      async get(id: string): Promise<'' @ modelName @ ''> {'' @ [CHR 0x0A] @
     ''        let { resource } = await this.container.item(id).read();'' @ [CHR 0x0A] @
     ''        return resource;'' @ [CHR 0x0A] @
     ''      }'' @ [CHR 0x0A] @
     ''    }    '' @ [CHR 0x0A] @
     ''    ''\<close>

text \<open>The operator \<^verbatim>\<open>??\<close>.\<close>

fun nullish :: "StoreValue \<Rightarrow> StoreValue \<Rightarrow> StoreValue" where
  "nullish Undefined d = d"
| "nullish v d = v"

text \<open>
  \<^verbatim>\<open>emitStoreInterface\<close>: the declaration list is emptied, the root is resolved, and the
  file is written. \<^verbatim>\<open>path.join\<close> is taken as a parameter, and writing is the event
  \<open>WriteFile path text\<close>.
\<close>

definition emitStoreInterface ::
  "nat \<Rightarrow> (string \<Rightarrow> string \<Rightarrow> string) \<Rightarrow> Program \<Rightarrow> DataStoreEmitterOptions \<Rightarrow> EmitterState
    \<Rightarrow> tid \<Rightarrow> StoreValue \<Rightarrow> (FsEvent \<times> EmitterState) result" where
  "emitStoreInterface n pathJoin p opts s model collectionName =
     (let outPath = pathJoin (outputDir opts) (nameText (types p model) @ ''.ts'')
      in andThen (getTypeReference n p (s\<lparr>typeDecls := []\<rparr>) model) (\<lambda>(r, s1).
           Ok (WriteFile outPath
                 (storeCode (nameText (types p model)) @
                  concat (map (\<lambda>decl. decl @ [CHR 0x0A]) (typeDecls s1))),
               s1)))"

text \<open>
  The loop of \<^verbatim>\<open>emit\<close> over the registrations: the files written so far, and how the
  loop ended (a thrown error ends it).
\<close>

fun emitLoop ::
  "nat \<Rightarrow> (string \<Rightarrow> string \<Rightarrow> string) \<Rightarrow> Program \<Rightarrow> DataStoreEmitterOptions \<Rightarrow> EmitterState
    \<Rightarrow> (tid \<times> StoreValue) list \<Rightarrow> FsEvent list \<times> EmitterState result" where
  "emitLoop n pathJoin p opts s [] = ([], Ok s)"
| "emitLoop n pathJoin p opts s ((model, collectionName) # rest) =
     (case emitStoreInterface n pathJoin p opts s model
             (nullish collectionName
                (case nameField (types p model) of None \<Rightarrow> Undefined | Some nm \<Rightarrow> StrVal nm)) of
        Ok (ev, s1) \<Rightarrow>
          (case emitLoop n pathJoin p opts s1 rest of (evs, outcome) \<Rightarrow> (ev # evs, outcome))
      | Throw e \<Rightarrow> ([], Throw e)
      | Diverge \<Rightarrow> ([], Diverge))"

text \<open>The variables of \<^verbatim>\<open>createTsEmitter\<close> as it initialises them.\<close>

definition createTsEmitter :: EmitterState where
  "createTsEmitter = \<lparr>typeDecls = [], knownTypes = Map.empty\<rparr>"

definition emit ::
  "nat \<Rightarrow> (string \<Rightarrow> string \<Rightarrow> string) \<Rightarrow> Program \<Rightarrow> DataStoreEmitterOptions \<Rightarrow> EmitterState
    \<Rightarrow> FsEvent list \<times> EmitterState result" where
  "emit n pathJoin p opts s =
     (case emitLoop n pathJoin p opts s (stateMap p) of
        (evs, outcome) \<Rightarrow> (Mkdir (outputDir opts) # evs, outcome))"

definition onEmit ::
  "nat \<Rightarrow> (string \<Rightarrow> string \<Rightarrow> string) \<Rightarrow> Program \<Rightarrow> FsEvent list \<times> EmitterState result" where
  "onEmit n pathJoin p =
     emit n pathJoin p \<lparr>outputDir = pathJoin (outputPath p) ''store''\<rparr> createTsEmitter"

section \<open>Invariants of the emitter's state\<close>

text \<open>
  A composite model: a \<open>Model\<close> for which \<^verbatim>\<open>getIntrinsicModelName\<close> gives nothing
  (\<^verbatim>\<open>undefined\<close> or the empty string, the two values the source's test
  \<^verbatim>\<open>if (intrinsicName)\<close> rejects).
\<close>

definition compositeModel :: "Program \<Rightarrow> tid \<Rightarrow> bool" where
  "compositeModel p t =
     ((case types p t of ModelType nm props targs \<Rightarrow> True | _ \<Rightarrow> False) \<and>
      \<not> truthy (getIntrinsicModelName p t))"

text \<open>Every key of the memo table is a composite model.\<close>

definition memoKeysComposite :: "Program \<Rightarrow> EmitterState \<Rightarrow> bool" where
  "memoKeysComposite p s = (\<forall>t \<in> dom (knownTypes s). compositeModel p t)"

text \<open>
  What a resolution may change on the way from \<open>s\<close> to \<open>s'\<close>: memo entries stay as
  they are, a new entry is for a composite model and comes with a declaration under the
  name it records, and the declaration list only grows at its end.
\<close>

definition frame :: "Program \<Rightarrow> EmitterState \<Rightarrow> EmitterState \<Rightarrow> bool" where
  "frame p s s' =
     ((\<forall>k v. knownTypes s k = Some v \<longrightarrow> knownTypes s' k = Some v) \<and>
      (\<forall>k v. knownTypes s k = None \<longrightarrow> knownTypes s' k = Some v \<longrightarrow>
         compositeModel p k \<and> (\<exists>prs. typeStr v prs \<in> set (typeDecls s'))) \<and>
      (\<exists>ds. typeDecls s' = typeDecls s @ ds))"

section \<open>An example program\<close>

text \<open>
  A type graph with one node of each shape the properties below are about: the
  intrinsic models \<open>string\<close> (0), \<open>int32\<close> (1) and \<open>int64\<close> (10), the union
  \<open>string | int32\<close> (2), a model \<open>User\<close> (3), the array \<open>User[]\<close> (4), the template
  instances \<open>Page<User>\<close> (5) and \<open>Page<User[]>\<close> (6), a model whose intrinsic name
  \<open>uint8\<close> is not in the table (7), a model \<open>Node\<close> with a property of its own type
  (8), an enum (9), two models \<open>A { b: B }\<close> (11) and \<open>B {}\<close> (12), both registered
  as stores, and the union \<open>User | string | User\<close> (13).
\<close>

definition exampleTypes :: "tid \<Rightarrow> Type" where
  "exampleTypes t =
     (if t = 0 then ModelType ''string'' [] None
      else if t = 1 then ModelType ''int32'' [] None
      else if t = 2 then UnionType [0, 1]
      else if t = 3 then ModelType ''User'' [ModelTypeProperty ''name'' False 0] None
      else if t = 4 then ArrayType 3
      else if t = 5 then ModelType ''Page'' [ModelTypeProperty ''items'' True 3] (Some [3])
      else if t = 6 then ModelType ''Page'' [ModelTypeProperty ''items'' True 4] (Some [4])
      else if t = 7 then ModelType ''uint8'' [] None
      else if t = 8 then ModelType ''Node'' [ModelTypeProperty ''next'' True 8] None
      else if t = 10 then ModelType ''int64'' [] None
      else if t = 11 then ModelType ''A'' [ModelTypeProperty ''b'' False 12] None
      else if t = 12 then ModelType ''B'' [] (Some [])
      else if t = 13 then UnionType [3, 0, 3]
      else OtherType (Some ''Color''))"

definition exampleIntrinsics :: "tid \<Rightarrow> string option" where
  "exampleIntrinsics t =
     (if t = 0 then Some ''string''
      else if t = 1 then Some ''int32''
      else if t = 7 then Some ''uint8''
      else if t = 10 then Some ''int64''
      else None)"

definition exampleProgram :: Program where
  "exampleProgram =
     \<lparr>types = exampleTypes, getIntrinsicModelName = exampleIntrinsics,
      stateMap = [(11, BoolVal False), (12, BoolVal False)], outputPath = ''out''\<rparr>"

definition examplePathJoin :: "string \<Rightarrow> string \<Rightarrow> string" where
  "examplePathJoin a b = a @ ''/'' @ b"

section \<open>Relations used to state the properties\<close>

text \<open>
  \<open>laterInPass p s s'\<close>: the state \<open>s'\<close> is reached from \<open>s\<close> by any number of
  successful resolutions.
\<close>

inductive laterInPass :: "Program \<Rightarrow> EmitterState \<Rightarrow> EmitterState \<Rightarrow> bool" for p where
  here: "laterInPass p s s"
| resolve: "laterInPass p s s1 \<Longrightarrow> getTypeReference n p s1 t = Ok (r, s2) \<Longrightarrow> laterInPass p s s2"

text \<open>
  \<open>resolvedInOrder n p s ts rs s'\<close>: resolving the types \<open>ts\<close> one after the other,
  from the state \<open>s\<close>, returns the references \<open>rs\<close> in the same order and ends in the
  state \<open>s'\<close>.
\<close>

inductive resolvedInOrder ::
  "nat \<Rightarrow> Program \<Rightarrow> EmitterState \<Rightarrow> tid list \<Rightarrow> string list \<Rightarrow> EmitterState \<Rightarrow> bool" for n p where
  no_option: "resolvedInOrder n p s [] [] s"
| option: "getTypeReference n p s t = Ok (r, s1) \<Longrightarrow> resolvedInOrder n p s1 ts rs s2 \<Longrightarrow>
         resolvedInOrder n p s (t # ts) (r # rs) s2"

text \<open>
  The invariant of the memo table: each key is a composite model, and the declaration
  list holds a declaration under the name recorded for it.
\<close>

definition memoInvariant :: "Program \<Rightarrow> EmitterState \<Rightarrow> bool" where
  "memoInvariant p s =
     (\<forall>t \<in> dom (knownTypes s).
        compositeModel p t \<and> (\<exists>prs. typeStr (the (knownTypes s t)) prs \<in> set (typeDecls s)))"

text \<open>The state after \<open>User\<close> (3) of the example program has been resolved.\<close>

definition userDeclared :: EmitterState where
  "userDeclared = \<lparr>typeDecls = [typeStr ''User'' [''name: string'']], knownTypes = [3 \<mapsto> ''User'']\<rparr>"

text \<open>
  Name synthesis as the specification words it. \<open>synthesizedName p nm targs x\<close>: a
  model named \<open>nm\<close> with template arguments \<open>targs\<close> has the synthesized name \<open>x\<close>,
  its own name when it has no template arguments, and otherwise its name followed by
  the names its arguments contribute, in argument order and with no separator. A model
  argument contributes its own synthesized name, an array of a model the synthesized
  name of the element followed by \<open>Array\<close>.
\<close>

inductive synthesizedName :: "Program \<Rightarrow> string \<Rightarrow> tid list option \<Rightarrow> string \<Rightarrow> bool"
  and argumentNames :: "Program \<Rightarrow> tid list \<Rightarrow> string list \<Rightarrow> bool"
  and argumentName :: "Program \<Rightarrow> tid \<Rightarrow> string \<Rightarrow> bool"
  for p where
  own_name: "targs = None \<or> targs = Some [] \<Longrightarrow> synthesizedName p nm targs nm"
| instantiated: "ts \<noteq> [] \<Longrightarrow> argumentNames p ts xs \<Longrightarrow> synthesizedName p nm (Some ts) (nm @ concat xs)"
| no_argument: "argumentNames p [] []"
| argument: "argumentName p t x \<Longrightarrow> argumentNames p ts xs \<Longrightarrow> argumentNames p (t # ts) (x # xs)"
| model_argument: "types p t = ModelType nm ps targs \<Longrightarrow> synthesizedName p nm targs x \<Longrightarrow> argumentName p t x"
| array_argument: "types p t = ArrayType e \<Longrightarrow> types p e = ModelType nm ps targs \<Longrightarrow>
     synthesizedName p nm targs x \<Longrightarrow> argumentName p t (x @ ''Array'')"

text \<open>A template argument that is neither a model nor an array of a model.\<close>

definition unsupportedArgument :: "Program \<Rightarrow> tid \<Rightarrow> bool" where
  "unsupportedArgument p t =
     (case types p t of
        ModelType nm ps targs \<Rightarrow> False
      | ArrayType e \<Rightarrow> (case types p e of ModelType nm ps targs \<Rightarrow> False | _ \<Rightarrow> True)
      | _ \<Rightarrow> True)"

text \<open>
  \<open>agrees v w\<close>: the result \<open>w\<close>, computed with a larger depth bound, is the result
  \<open>v\<close> unless \<open>v\<close> only says that the smaller bound was reached.
\<close>

definition agrees :: "'a result \<Rightarrow> 'a result \<Rightarrow> bool" where
  "agrees v w = (v = Diverge \<or> w = v)"

section \<open>The depth bound\<close>

text \<open>
  A result other than \<open>Diverge\<close> does not depend on the bound: every larger bound
  gives the same value or the same error. So \<open>Ok\<close> and \<open>Throw\<close> at some bound are
  what the source returns or throws, and \<open>Diverge\<close> at every bound is a recursion
  that never ends.
\<close>

lemma agrees_refl: "agrees v v"
  by (simp add: agrees_def)

lemma agrees_andThen:
  assumes "agrees x x'" and "\<And>a. agrees (f a) (f' a)"
  shows "agrees (andThen x f) (andThen x' f')"
proof (cases x)
  case (Ok a)
  with assms(1) have "x' = Ok a" by (simp add: agrees_def)
  with Ok assms(2)[of a] show ?thesis by simp
next
  case (Throw e)
  with assms(1) have "x' = Throw e" by (simp add: agrees_def)
  with Throw show ?thesis by (simp add: agrees_def)
next
  case Diverge
  then show ?thesis by (simp add: agrees_def)
qed

lemma agrees_parameterName:
  assumes "\<And>nm targs. agrees (d nm targs) (d' nm targs)"
  shows "agrees (parameterName d p t) (parameterName d' p t)"
  unfolding parameterName_def
  by (auto split: Type.splits intro!: agrees_andThen assms agrees_refl)

lemma agrees_parameterNames:
  assumes "\<And>nm targs. agrees (d nm targs) (d' nm targs)"
  shows "agrees (parameterNames d p ts) (parameterNames d' p ts)"
proof (induction ts)
  case Nil
  show ?case by (simp add: agrees_refl)
next
  case (Cons t ts)
  show ?case
    unfolding parameterNames.simps
    by (intro agrees_andThen agrees_parameterName assms Cons.IH agrees_refl)
qed

lemma agrees_getModelDeclarationName:
  "agrees (getModelDeclarationName n p nm targs) (getModelDeclarationName (Suc n) p nm targs)"
proof (induction n arbitrary: nm targs)
  case 0
  show ?case by (simp add: agrees_def)
next
  case (Suc n)
  have "agrees (andThen (parameterNames (getModelDeclarationName n p) p ts) (\<lambda>ns. Ok (nm @ concat ns)))
          (andThen (parameterNames (getModelDeclarationName (Suc n) p) p ts) (\<lambda>ns. Ok (nm @ concat ns)))"
    for ts
    by (intro agrees_andThen agrees_parameterNames Suc.IH agrees_refl)
  then show ?case
    by (cases targs) (simp_all add: agrees_refl)
qed

lemma agrees_optionRefs:
  assumes "\<And>s t. agrees (ref s t) (ref' s t)"
  shows "agrees (optionRefs ref s ts) (optionRefs ref' s ts)"
proof (induction ts arbitrary: s)
  case Nil
  show ?case by (simp add: agrees_refl)
next
  case (Cons t ts)
  show ?case
    unfolding optionRefs.simps
    by (intro agrees_andThen assms) (auto intro!: agrees_andThen Cons.IH agrees_refl)
qed

lemma agrees_propRefs:
  assumes "\<And>s t. agrees (ref s t) (ref' s t)"
  shows "agrees (propRefs ref s ps) (propRefs ref' s ps)"
proof (induction ps arbitrary: s)
  case Nil
  show ?case by (simp add: agrees_refl)
next
  case (Cons q ps)
  show ?case
    unfolding propRefs.simps
    by (intro agrees_andThen assms) (auto intro!: agrees_andThen Cons.IH agrees_refl)
qed

lemma agrees_generateModelType:
  assumes "\<And>s t. agrees (ref s t) (ref' s t)" and "\<And>nm targs. agrees (d nm targs) (d' nm targs)"
  shows "agrees (generateModelType ref d p s t nm props targs) (generateModelType ref' d' p s t nm props targs)"
proof (cases "truthy (getIntrinsicModelName p t)")
  case True
  then show ?thesis by (simp add: generateModelType_def agrees_refl)
next
  case False
  have "agrees (andThen (propRefs ref s props) (\<lambda>(prs, s1).
        andThen (d nm targs) (\<lambda>typeRef.
          Ok (typeRef,
              s1\<lparr>typeDecls := typeDecls s1 @ [typeStr typeRef prs],
                 knownTypes := (knownTypes s1)(t \<mapsto> typeRef)\<rparr>))))
     (andThen (propRefs ref' s props) (\<lambda>(prs, s1).
        andThen (d' nm targs) (\<lambda>typeRef.
          Ok (typeRef,
              s1\<lparr>typeDecls := typeDecls s1 @ [typeStr typeRef prs],
                 knownTypes := (knownTypes s1)(t \<mapsto> typeRef)\<rparr>))))"
    by (intro agrees_andThen agrees_propRefs assms(1)) (auto intro!: agrees_andThen assms(2) agrees_refl)
  with False show ?thesis by (simp add: generateModelType_def)
qed

lemma agrees_getTypeReference:
  "agrees (getTypeReference n p s t) (getTypeReference (Suc n) p s t)"
proof (induction n arbitrary: s t)
  case 0
  show ?case by (simp add: agrees_def)
next
  case (Suc n)
  show ?case
  proof (cases "knownTypes s t")
    case (Some r)
    then show ?thesis by (simp add: agrees_refl)
  next
    case None
    show ?thesis
    proof (cases "types p t")
      case (ModelType nm props targs)
      have "agrees (generateModelType (getTypeReference n p) (getModelDeclarationName n p) p s t nm props targs)
              (generateModelType (getTypeReference (Suc n) p) (getModelDeclarationName (Suc n) p) p s t nm props targs)"
        by (intro agrees_generateModelType Suc.IH agrees_getModelDeclarationName)
      with None ModelType show ?thesis by simp
    next
      case (ArrayType e)
      have "agrees (generateArrayType (getTypeReference n p) s e) (generateArrayType (getTypeReference (Suc n) p) s e)"
        unfolding generateArrayType_def by (intro agrees_andThen Suc.IH agrees_refl)
      with None ArrayType show ?thesis by simp
    next
      case (NumericLiteralType v)
      with None show ?thesis by (simp add: agrees_refl)
    next
      case (UnionType os)
      have "agrees (andThen (optionRefs (getTypeReference n p) s os) (\<lambda>(rs, s'). Ok (join ''|'' rs, s')))
              (andThen (optionRefs (getTypeReference (Suc n) p) s os) (\<lambda>(rs, s'). Ok (join ''|'' rs, s')))"
        by (intro agrees_andThen agrees_optionRefs Suc.IH agrees_refl)
      with None UnionType show ?thesis by simp
    next
      case (OtherType x)
      with None show ?thesis by (simp add: agrees_refl)
    qed
  qed
qed

lemma getTypeReference_deeper:
  "getTypeReference n p s t \<noteq> Diverge \<Longrightarrow> getTypeReference (n + k) p s t = getTypeReference n p s t"
proof (induction k)
  case 0
  show ?case by simp
next
  case (Suc k)
  with agrees_getTypeReference[of "n + k" p s t] show ?case
    by (simp add: agrees_def del: getTypeReference.simps)
qed

lemma getModelDeclarationName_deeper:
  "getModelDeclarationName n p nm targs \<noteq> Diverge \<Longrightarrow>
   getModelDeclarationName (n + k) p nm targs = getModelDeclarationName n p nm targs"
proof (induction k)
  case 0
  show ?case by simp
next
  case (Suc k)
  with agrees_getModelDeclarationName[of "n + k" p nm targs] show ?case
    by (simp add: agrees_def del: getModelDeclarationName.simps)
qed

section \<open>How a resolution changes the state\<close>

lemma frame_refl: "frame p s s"
  by (simp add: frame_def)

lemma frame_trans:
  assumes "frame p s s1" and "frame p s1 s2"
  shows "frame p s s2"
proof -
  from assms obtain d1 d2 where d: "typeDecls s1 = typeDecls s @ d1" "typeDecls s2 = typeDecls s1 @ d2"
    by (auto simp: frame_def)
  have keep: "\<And>k v. knownTypes s k = Some v \<Longrightarrow> knownTypes s2 k = Some v"
    using assms by (simp add: frame_def)
  have new: "compositeModel p k \<and> (\<exists>prs. typeStr v prs \<in> set (typeDecls s2))"
    if "knownTypes s k = None" "knownTypes s2 k = Some v" for k v
  proof (cases "knownTypes s1 k")
    case None
    with that assms(2) show ?thesis by (simp add: frame_def)
  next
    case (Some w)
    with assms(2) have "knownTypes s2 k = Some w" by (simp add: frame_def)
    with that have "w = v" by simp
    with Some that assms(1) have "compositeModel p k \<and> (\<exists>prs. typeStr v prs \<in> set (typeDecls s1))"
      by (simp add: frame_def)
    with d show ?thesis by auto
  qed
  show ?thesis
    unfolding frame_def using keep new d by auto
qed

lemma andThen_Ok:
  "andThen x f = Ok y \<longleftrightarrow> (\<exists>a. x = Ok a \<and> f a = Ok y)"
  by (cases x) auto

lemma frame_optionRefs:
  assumes "\<And>s t r s'. ref s t = Ok (r, s') \<Longrightarrow> frame p s s'"
  shows "optionRefs ref s ts = Ok (rs, s') \<Longrightarrow> frame p s s'"
proof (induction ts arbitrary: s rs)
  case Nil
  then show ?case by (simp add: frame_refl)
next
  case (Cons t ts)
  then obtain r s1 rs' where a: "ref s t = Ok (r, s1)" and b: "optionRefs ref s1 ts = Ok (rs', s')"
    by (auto simp: andThen_Ok)
  from assms[OF a] Cons.IH[OF b] show ?case by (rule frame_trans)
qed

lemma frame_propRefs:
  assumes "\<And>s t r s'. ref s t = Ok (r, s') \<Longrightarrow> frame p s s'"
  shows "propRefs ref s ps = Ok (rs, s') \<Longrightarrow> frame p s s'"
proof (induction ps arbitrary: s rs)
  case Nil
  then show ?case by (simp add: frame_refl)
next
  case (Cons q ps)
  then obtain r s1 rs' where a: "ref s (propType q) = Ok (r, s1)" and b: "propRefs ref s1 ps = Ok (rs', s')"
    by (auto simp: andThen_Ok)
  from assms[OF a] Cons.IH[OF b] show ?case by (rule frame_trans)
qed

lemma frame_declare:
  assumes "knownTypes s t = None" and "compositeModel p t" and "frame p s s1"
  shows "frame p s (s1\<lparr>typeDecls := typeDecls s1 @ [typeStr nm prs],
                       knownTypes := (knownTypes s1)(t \<mapsto> nm)\<rparr>)"
proof -
  let ?s2 = "s1\<lparr>typeDecls := typeDecls s1 @ [typeStr nm prs], knownTypes := (knownTypes s1)(t \<mapsto> nm)\<rparr>"
  from assms(3) obtain ds where ds: "typeDecls s1 = typeDecls s @ ds"
    by (auto simp: frame_def)
  have keep: "knownTypes ?s2 k = Some v" if "knownTypes s k = Some v" for k v
    using that assms(1,3) by (auto simp: frame_def)
  have new: "compositeModel p k \<and> (\<exists>prs. typeStr v prs \<in> set (typeDecls ?s2))"
    if "knownTypes s k = None" "knownTypes ?s2 k = Some v" for k v
  proof (cases "k = t")
    case True
    with that assms(2) show ?thesis by auto
  next
    case False
    with that assms(3) have "compositeModel p k \<and> (\<exists>prs. typeStr v prs \<in> set (typeDecls s1))"
      by (simp add: frame_def)
    then show ?thesis by auto
  qed
  have "\<exists>ds'. typeDecls ?s2 = typeDecls s @ ds'"
    using ds by simp
  with keep new show ?thesis
    unfolding frame_def by blast
qed

lemma frame_generateModelType:
  assumes ref: "\<And>s t r s'. ref s t = Ok (r, s') \<Longrightarrow> frame p s s'"
    and none: "knownTypes s t = None"
    and ty: "types p t = ModelType nm props targs"
    and ok: "generateModelType ref declName p s t nm props targs = Ok (r, s')"
  shows "frame p s s'"
proof (cases "truthy (getIntrinsicModelName p t)")
  case True
  with ok have "s' = s"
    by (auto simp: generateModelType_def split: option.splits)
  then show ?thesis by (simp add: frame_refl)
next
  case False
  with ok obtain prs s1 where pr: "propRefs ref s props = Ok (prs, s1)"
    and s': "s' = s1\<lparr>typeDecls := typeDecls s1 @ [typeStr r prs], knownTypes := (knownTypes s1)(t \<mapsto> r)\<rparr>"
    by (auto simp: generateModelType_def andThen_Ok)
  from False ty have "compositeModel p t" by (simp add: compositeModel_def)
  with none frame_propRefs[of ref p, OF ref pr] show ?thesis
    unfolding s' by (intro frame_declare)
qed

lemma frame_getTypeReference:
  "getTypeReference n p s t = Ok (r, s') \<Longrightarrow> frame p s s'"
proof (induction n arbitrary: s t r s')
  case 0
  then show ?case by simp
next
  case (Suc n)
  note ref = Suc.IH
  show ?case
  proof (cases "knownTypes s t")
    case (Some v)
    with Suc.prems show ?thesis by (simp add: frame_refl)
  next
    case None
    show ?thesis
    proof (cases "types p t")
      case (ModelType nm props targs)
      with None Suc.prems
      have "generateModelType (getTypeReference n p) (getModelDeclarationName n p) p s t nm props targs = Ok (r, s')"
        by simp
      with ref None ModelType show ?thesis by (rule frame_generateModelType)
    next
      case (ArrayType e)
      with None Suc.prems obtain r0 where "getTypeReference n p s e = Ok (r0, s')"
        by (auto simp: generateArrayType_def andThen_Ok)
      then show ?thesis by (rule ref)
    next
      case (NumericLiteralType v)
      with None Suc.prems show ?thesis by (simp add: frame_refl)
    next
      case (UnionType os)
      with None Suc.prems obtain rs where "optionRefs (getTypeReference n p) s os = Ok (rs, s')"
        by (auto simp: andThen_Ok)
      with ref show ?thesis by (rule frame_optionRefs)
    next
      case (OtherType x)
      with None Suc.prems show ?thesis by (simp add: frame_refl)
    qed
  qed
qed

lemma memoKeysComposite_frame:
  "memoKeysComposite p s \<Longrightarrow> frame p s s' \<Longrightarrow> memoKeysComposite p s'"
  unfolding memoKeysComposite_def frame_def
  by (metis domD domI not_Some_eq)

lemma memoKeysComposite_fresh: "memoKeysComposite p createTsEmitter"
  by (simp add: memoKeysComposite_def createTsEmitter_def)

lemma memoKeysComposite_reset:
  "memoKeysComposite p s \<Longrightarrow> memoKeysComposite p (s\<lparr>typeDecls := ds\<rparr>)"
  by (simp add: memoKeysComposite_def)

lemma not_composite_unknown:
  "memoKeysComposite p s \<Longrightarrow> \<not> compositeModel p t \<Longrightarrow> knownTypes s t = None"
  by (auto simp: memoKeysComposite_def)

section \<open>The intrinsic table and the fallback\<close>

lemma intrinsic_lookup:
  assumes "types p t = ModelType nm props targs" and "truthy (getIntrinsicModelName p t)"
    and "memoKeysComposite p s"
  shows "getTypeReference (Suc n) p s t =
     (case map_of instrinsicNameToTSType (the (getIntrinsicModelName p t)) of
        None \<Rightarrow> Throw (UnknownIntrinsic (the (getIntrinsicModelName p t)))
      | Some ts \<Rightarrow> Ok (ts, s))"
proof -
  from assms(2) have "\<not> compositeModel p t" by (simp add: compositeModel_def)
  with assms(3) have "knownTypes s t = None" by (rule not_composite_unknown)
  with assms(1,2) show ?thesis by (simp add: generateModelType_def)
qed

lemma example_memo_fresh: "memoKeysComposite exampleProgram createTsEmitter"
  by (rule memoKeysComposite_fresh)

text \<open>
  C3. A model whose intrinsic name is not one of \<open>string\<close>, \<open>int32\<close>, \<open>int16\<close>,
  \<open>float16\<close>, \<open>float32\<close>, \<open>int64\<close>, \<open>boolean\<close> does not resolve: in every state of
  the emitter whose memo keys are composite models, \<open>getTypeReference\<close> throws the
  unknown-intrinsic error for it at every depth, no reference is returned, and a pass
  that has it as its root throws the same error and writes nothing. A model is
  intrinsic-named when \<^verbatim>\<open>getIntrinsicModelName\<close> gives a non-empty string, the test of
  the source.
\<close>

theorem unknown_intrinsic_throws:
  assumes "types p t = ModelType nm props targs"
    and "getIntrinsicModelName p t = Some i" and "i \<noteq> []"
    and "i \<notin> {''string'', ''int32'', ''int16'', ''float16'', ''float32'', ''int64'', ''boolean''}"
    and "memoKeysComposite p s"
  shows "getTypeReference (Suc n) p s t = Throw (UnknownIntrinsic i) \<and>
         emitStoreInterface (Suc n) pathJoin p opts s t c = Throw (UnknownIntrinsic i)"
proof -
  from assms(2,3) have tr: "truthy (getIntrinsicModelName p t)" by simp
  from assms(4) have "map_of instrinsicNameToTSType i = None"
    by (simp add: instrinsicNameToTSType_def)
  with assms(2) have a: "getTypeReference (Suc n) p s' t = Throw (UnknownIntrinsic i)"
    if "memoKeysComposite p s'" for s'
    using intrinsic_lookup[OF assms(1) tr that, of n] by simp
  from assms(5) have "memoKeysComposite p (s\<lparr>typeDecls := []\<rparr>)" by (rule memoKeysComposite_reset)
  then have "getTypeReference (Suc n) p (s\<lparr>typeDecls := []\<rparr>) t = Throw (UnknownIntrinsic i)"
    by (rule a)
  then have "emitStoreInterface (Suc n) pathJoin p opts s t c = Throw (UnknownIntrinsic i)"
    by (simp only: emitStoreInterface_def Let_def andThen.simps)
  with a[OF assms(5)] show ?thesis by (rule conjI)
qed

theorem unknown_intrinsic_throws_witness:
  "types exampleProgram 7 = ModelType ''uint8'' [] None \<and>
   getIntrinsicModelName exampleProgram 7 = Some ''uint8'' \<and>
   getTypeReference (Suc 0) exampleProgram createTsEmitter 7 = Throw (UnknownIntrinsic ''uint8'') \<and>
   emitStoreInterface (Suc 0) examplePathJoin exampleProgram \<lparr>outputDir = ''out/store''\<rparr>
     createTsEmitter 7 (BoolVal False) = Throw (UnknownIntrinsic ''uint8'')"
proof -
  have a: "types exampleProgram 7 = ModelType ''uint8'' [] None"
    by (simp add: exampleProgram_def exampleTypes_def)
  have b: "getIntrinsicModelName exampleProgram 7 = Some ''uint8''"
    by (simp add: exampleProgram_def exampleIntrinsics_def)
  have c: "''uint8'' \<noteq> []" by simp
  have d: "''uint8'' \<notin> {''string'', ''int32'', ''int16'', ''float16'', ''float32'', ''int64'', ''boolean''}"
    by simp
  from unknown_intrinsic_throws[OF a b c d example_memo_fresh, of 0 examplePathJoin
      "\<lparr>outputDir = ''out/store''\<rparr>" "BoolVal False"] a b
  show ?thesis by (simp only: simp_thms)
qed

text \<open>
  C6. The intrinsic table is the closed table \<open>string \<rightarrow> string\<close>, \<open>int32 \<rightarrow> number\<close>,
  \<open>int16 \<rightarrow> number\<close>, \<open>float16 \<rightarrow> number\<close>, \<open>float32 \<rightarrow> number\<close>, \<open>int64 \<rightarrow> bigint\<close>,
  \<open>boolean \<rightarrow> boolean\<close>: a model whose intrinsic name is in the table resolves, at every
  depth, to the mapped reference and leaves the state (declaration list and memo
  table) as it was, and the table has no other names.
\<close>

theorem intrinsic_mapping_table:
  assumes "types p t = ModelType nm props targs"
    and "getIntrinsicModelName p t = Some i"
    and "(i, v) \<in> {(''string'', ''string''), (''int32'', ''number''), (''int16'', ''number''),
                   (''float16'', ''number''), (''float32'', ''number''), (''int64'', ''bigint''),
                   (''boolean'', ''boolean'')}"
    and "memoKeysComposite p s"
  shows "getTypeReference (Suc n) p s t = Ok (v, s) \<and>
         dom (map_of instrinsicNameToTSType) =
           {''string'', ''int32'', ''int16'', ''float16'', ''float32'', ''int64'', ''boolean''}"
proof -
  from assms(3) have ne: "i \<noteq> []" by auto
  from assms(3) have look: "map_of instrinsicNameToTSType i = Some v"
    by (auto simp: instrinsicNameToTSType_def)
  from assms(2) ne have "truthy (getIntrinsicModelName p t)" by simp
  from intrinsic_lookup[OF assms(1) this assms(4), of n] assms(2) look
  have 1: "getTypeReference (Suc n) p s t = Ok (v, s)" by simp
  have 2: "dom (map_of instrinsicNameToTSType) =
           {''string'', ''int32'', ''int16'', ''float16'', ''float32'', ''int64'', ''boolean''}"
    by (simp add: instrinsicNameToTSType_def dom_map_of_conv_image_fst)
  from 1 2 show ?thesis by (rule conjI)
qed

theorem intrinsic_mapping_table_witness:
  "types exampleProgram 10 = ModelType ''int64'' [] None \<and>
   getIntrinsicModelName exampleProgram 10 = Some ''int64'' \<and>
   getTypeReference (Suc 0) exampleProgram createTsEmitter 10 = Ok (''bigint'', createTsEmitter)"
proof -
  have a: "types exampleProgram 10 = ModelType ''int64'' [] None"
    by (simp add: exampleProgram_def exampleTypes_def)
  have b: "getIntrinsicModelName exampleProgram 10 = Some ''int64''"
    by (simp add: exampleProgram_def exampleIntrinsics_def)
  have c: "(''int64'', ''bigint'') \<in> {(''string'', ''string''), (''int32'', ''number''), (''int16'', ''number''),
                   (''float16'', ''number''), (''float32'', ''number''), (''int64'', ''bigint''),
                   (''boolean'', ''boolean'')}"
    by simp
  from intrinsic_mapping_table[OF a b c example_memo_fresh, of 0] a b
  show ?thesis by (simp only: simp_thms)
qed

text \<open>
  C7. A type of any kind other than Model, Array, Union and Number resolves, at every
  depth and in every state whose memo keys are composite models, to the reference
  \<open>{}\<close>; the result is a value, not an error, and the state (declaration list and
  memo table) is as it was.
\<close>

theorem other_kind_resolves_to_empty_object:
  assumes "types p t = OtherType x" and "memoKeysComposite p s"
  shows "getTypeReference (Suc n) p s t = Ok (''{}'', s)"
proof -
  from assms(1) have "\<not> compositeModel p t" by (simp add: compositeModel_def)
  with assms(2) have "knownTypes s t = None" by (rule not_composite_unknown)
  with assms(1) show ?thesis by simp
qed

theorem other_kind_resolves_to_empty_object_witness:
  "types exampleProgram 9 = OtherType (Some ''Color'') \<and>
   getTypeReference (Suc 0) exampleProgram createTsEmitter 9 = Ok (''{}'', createTsEmitter)"
proof -
  have a: "types exampleProgram 9 = OtherType (Some ''Color'')"
    by (simp add: exampleProgram_def exampleTypes_def)
  from other_kind_resolves_to_empty_object[OF a example_memo_fresh, of 0] a
  show ?thesis by (simp only: simp_thms)
qed

section \<open>Memoization\<close>

lemma frame_laterInPass: "laterInPass p s s' \<Longrightarrow> frame p s s'"
proof (induction rule: laterInPass.induct)
  case (here s)
  show ?case by (rule frame_refl)
next
  case (resolve s s1 n t r s2)
  from resolve.hyps(2) have "frame p s1 s2" by (rule frame_getTypeReference)
  with resolve.IH show ?case by (rule frame_trans)
qed

lemma frame_keeps: "frame p s s' \<Longrightarrow> knownTypes s k = Some v \<Longrightarrow> knownTypes s' k = Some v"
  by (simp add: frame_def)

lemma frame_new_composite:
  "frame p s s' \<Longrightarrow> knownTypes s k = None \<Longrightarrow> \<not> compositeModel p k \<Longrightarrow> knownTypes s' k = None"
  by (cases "knownTypes s' k") (auto simp: frame_def)

lemma example_types:
  "types exampleProgram 2 = UnionType [0, 1]"
  "types exampleProgram 0 = ModelType ''string'' [] None"
  "types exampleProgram 1 = ModelType ''int32'' [] None"
  "types exampleProgram 3 = ModelType ''User'' [ModelTypeProperty ''name'' False 0] None"
  "getIntrinsicModelName exampleProgram 0 = Some ''string''"
  "getIntrinsicModelName exampleProgram 1 = Some ''int32''"
  by (simp_all add: exampleProgram_def exampleTypes_def exampleIntrinsics_def)

lemma example_User:
  "getTypeReference (Suc (Suc 0)) exampleProgram createTsEmitter 3 = Ok (''User'', userDeclared)"
  by (simp add: exampleProgram_def exampleTypes_def exampleIntrinsics_def createTsEmitter_def
      generateModelType_def instrinsicNameToTSType_def propText_def userDeclared_def)

text \<open>
  C8. Memoization is idempotent: when resolving a model has succeeded once, resolving
  the same model again, at any later point of the pass (after any number of further
  successful resolutions) and at any depth, returns the same reference and leaves the
  state as it is, so no second declaration is appended.
\<close>

theorem resolving_again_is_idempotent:
  assumes ty: "types p m = ModelType nm props targs"
    and first: "getTypeReference n p s m = Ok (r, s1)"
    and later: "laterInPass p s1 s2"
  shows "getTypeReference (Suc k) p s2 m = Ok (r, s2)"
proof -
  from later have fr: "frame p s1 s2" by (rule frame_laterInPass)
  from first obtain n' where n: "n = Suc n'" by (cases n) auto
  show ?thesis
  proof (cases "knownTypes s m")
    case (Some v)
    with first n have "r = v" "s1 = s" by auto
    with Some fr have "knownTypes s2 m = Some r" by (auto dest: frame_keeps)
    then show ?thesis by simp
  next
    case None
    with first n ty
    have gen: "generateModelType (getTypeReference n' p) (getModelDeclarationName n' p) p s m nm props targs
                = Ok (r, s1)"
      by simp
    show ?thesis
    proof (cases "truthy (getIntrinsicModelName p m)")
      case True
      with gen have s1: "s1 = s"
        and r: "map_of instrinsicNameToTSType (the (getIntrinsicModelName p m)) = Some r"
        by (auto simp: generateModelType_def split: option.splits)
      from True have "\<not> compositeModel p m" by (simp add: compositeModel_def)
      with fr None s1 have "knownTypes s2 m = None" by (auto dest: frame_new_composite)
      with ty True r show ?thesis by (simp add: generateModelType_def)
    next
      case False
      with gen have "knownTypes s1 m = Some r"
        by (auto simp: generateModelType_def andThen_Ok)
      with fr have "knownTypes s2 m = Some r" by (rule frame_keeps)
      then show ?thesis by simp
    qed
  qed
qed

theorem resolving_again_is_idempotent_witness:
  "getTypeReference (Suc (Suc 0)) exampleProgram createTsEmitter 3 = Ok (''User'', userDeclared) \<and>
   laterInPass exampleProgram userDeclared userDeclared \<and>
   getTypeReference (Suc 0) exampleProgram userDeclared 3 = Ok (''User'', userDeclared)"
  using resolving_again_is_idempotent[OF example_types(4) example_User here, of 0] example_User here
  by (simp only: simp_thms)

lemma memoKeysComposite_emitStoreInterface:
  assumes "memoKeysComposite p s" and "emitStoreInterface n pathJoin p opts s model c = Ok (ev, s')"
  shows "memoKeysComposite p s'"
proof -
  from assms(2) obtain r where "getTypeReference n p (s\<lparr>typeDecls := []\<rparr>) model = Ok (r, s')"
    by (auto simp: emitStoreInterface_def andThen_Ok)
  then have "frame p (s\<lparr>typeDecls := []\<rparr>) s'" by (rule frame_getTypeReference)
  with memoKeysComposite_reset[OF assms(1)] show ?thesis by (rule memoKeysComposite_frame)
qed

lemma memoInvariant_frame:
  assumes "memoInvariant p s" and "frame p s s'"
  shows "memoInvariant p s'"
proof -
  from assms(2) obtain ds where ds: "typeDecls s' = typeDecls s @ ds" by (auto simp: frame_def)
  have "compositeModel p k \<and> (\<exists>prs. typeStr (the (knownTypes s' k)) prs \<in> set (typeDecls s'))"
    if "knownTypes s' k = Some v" for k v
  proof (cases "knownTypes s k")
    case None
    with that assms(2) show ?thesis by (simp add: frame_def)
  next
    case (Some w)
    with assms(2) have eq: "knownTypes s' k = Some w" by (rule frame_keeps)
    from Some have "k \<in> dom (knownTypes s)" by (rule domI)
    with assms(1) have "compositeModel p k \<and> (\<exists>prs. typeStr (the (knownTypes s k)) prs \<in> set (typeDecls s))"
      unfolding memoInvariant_def by (rule bspec)
    with Some have "compositeModel p k \<and> (\<exists>prs. typeStr w prs \<in> set (typeDecls s))"
      by simp
    with eq ds show ?thesis by auto
  qed
  then show ?thesis by (auto simp: memoInvariant_def)
qed

text \<open>
  C10. The memo table holds composite models only: the invariant \<open>memoInvariant\<close>
  (every key is a model without intrinsic name, and a declaration under its recorded
  name is in the declaration list) holds when the emitter is created and is preserved
  by every successful resolution; a resolved type that is not a composite model (an
  intrinsic model, an array, a union, a number literal, any other kind) has no memo
  entry afterwards. A pass of \<open>emitStoreInterface\<close>, which empties the declaration list
  first, still leaves composite models as the only keys.
\<close>

theorem memo_holds_declared_composites_only:
  assumes "memoInvariant p s" and "getTypeReference n p s t = Ok (r, s')"
  shows "memoInvariant p s' \<and> (\<not> compositeModel p t \<longrightarrow> knownTypes s' t = None) \<and>
         memoInvariant p createTsEmitter \<and>
         (\<forall>k pathJoin opts root c ev s2.
            emitStoreInterface k pathJoin p opts s root c = Ok (ev, s2) \<longrightarrow> memoKeysComposite p s2)"
proof -
  from assms(2) have "frame p s s'" by (rule frame_getTypeReference)
  with assms(1) have 1: "memoInvariant p s'" by (rule memoInvariant_frame)
  then have 2: "\<not> compositeModel p t \<longrightarrow> knownTypes s' t = None"
    by (auto simp: memoInvariant_def)
  have 3: "memoInvariant p createTsEmitter"
    by (simp add: memoInvariant_def createTsEmitter_def)
  from assms(1) have "memoKeysComposite p s"
    by (simp add: memoInvariant_def memoKeysComposite_def)
  then have 4: "\<forall>k pathJoin opts root c ev s2.
            emitStoreInterface k pathJoin p opts s root c = Ok (ev, s2) \<longrightarrow> memoKeysComposite p s2"
    by (blast intro: memoKeysComposite_emitStoreInterface)
  from 1 2 3 4 show ?thesis by (intro conjI)
qed

theorem memo_holds_declared_composites_only_witness:
  "memoInvariant exampleProgram createTsEmitter \<and>
   getTypeReference (Suc (Suc 0)) exampleProgram createTsEmitter 3 = Ok (''User'', userDeclared) \<and>
   memoInvariant exampleProgram userDeclared \<and>
   knownTypes userDeclared 3 = Some ''User'' \<and> knownTypes userDeclared 0 = None"
proof -
  have a: "memoInvariant exampleProgram createTsEmitter"
    by (simp add: memoInvariant_def createTsEmitter_def)
  have b: "knownTypes userDeclared 3 = Some ''User''" "knownTypes userDeclared 0 = None"
    by (simp_all add: userDeclared_def)
  from memo_holds_declared_composites_only[OF a example_User, THEN conjunct1] a example_User b
  show ?thesis by (intro conjI)
qed

section \<open>Unions\<close>

lemma optionRefs_resolvedInOrder:
  "resolvedInOrder n p s os rs s' \<Longrightarrow> optionRefs (getTypeReference n p) s os = Ok (rs, s')"
  by (induction rule: resolvedInOrder.induct) simp_all

lemma frame_resolvedInOrder: "resolvedInOrder n p s os rs s' \<Longrightarrow> frame p s s'"
proof (induction rule: resolvedInOrder.induct)
  case (no_option s)
  show ?case by (rule frame_refl)
next
  case (option s t r s1 ts rs s2)
  from option.hyps(1) have "frame p s s1" by (rule frame_getTypeReference)
  then show ?case using option.IH by (rule frame_trans)
qed

text \<open>
  C5. The reference of a union is the references of its options, resolved in option
  order, joined with \<open>|\<close>. No declaration is appended for the union itself: the
  state after resolving the union (declaration list and memo table) is the state its
  options left, and the union gets no memo entry. An option that is a composite model
  not yet resolved does append its own declaration. A union of the intrinsic models
  \<open>string\<close> and \<open>int32\<close> resolves to \<open>string|number\<close> with the state unchanged.
\<close>

theorem union_reference_joins_options:
  assumes ty: "types p u = UnionType os" and memo: "memoKeysComposite p s"
  shows "(\<forall>rs s'. resolvedInOrder n p s os rs s' \<longrightarrow>
            getTypeReference (Suc n) p s u = Ok (join ''|'' rs, s') \<and> knownTypes s' u = None) \<and>
         (\<forall>a b na pa ta nb pb tb.
            os = [a, b] \<and> types p a = ModelType na pa ta \<and> getIntrinsicModelName p a = Some ''string'' \<and>
            types p b = ModelType nb pb tb \<and> getIntrinsicModelName p b = Some ''int32'' \<longrightarrow>
            getTypeReference (Suc (Suc n)) p s u = Ok (''string|number'', s))"
proof -
  from ty have nc: "\<not> compositeModel p u" by (simp add: compositeModel_def)
  with memo have unknown: "knownTypes s u = None" by (rule not_composite_unknown)
  have general: "getTypeReference (Suc n) p s u = Ok (join ''|'' rs, s') \<and> knownTypes s' u = None"
    if r: "resolvedInOrder n p s os rs s'" for rs s' n
  proof -
    from r have "optionRefs (getTypeReference n p) s os = Ok (rs, s')"
      by (rule optionRefs_resolvedInOrder)
    with ty unknown have 1: "getTypeReference (Suc n) p s u = Ok (join ''|'' rs, s')" by simp
    from r have "frame p s s'" by (rule frame_resolvedInOrder)
    from this unknown nc have "knownTypes s' u = None" by (rule frame_new_composite)
    with 1 show ?thesis by (rule conjI)
  qed
  have particular: "getTypeReference (Suc (Suc n)) p s u = Ok (''string|number'', s)"
    if os: "os = [a, b]" and a: "types p a = ModelType na pa ta" "getIntrinsicModelName p a = Some ''string''"
      and b: "types p b = ModelType nb pb tb" "getIntrinsicModelName p b = Some ''int32''"
    for a b na pa ta nb pb tb
  proof -
    have ra: "getTypeReference (Suc n) p s a = Ok (''string'', s)"
      using intrinsic_lookup[OF a(1) _ memo, of n] a(2) by (simp add: instrinsicNameToTSType_def)
    have rb: "getTypeReference (Suc n) p s b = Ok (''number'', s)"
      using intrinsic_lookup[OF b(1) _ memo, of n] b(2) by (simp add: instrinsicNameToTSType_def)
    have "resolvedInOrder (Suc n) p s [b] [''number''] s"
      using rb no_option by (rule option)
    with ra have "resolvedInOrder (Suc n) p s [a, b] [''string'', ''number''] s"
      by (rule option)
    with os have "getTypeReference (Suc (Suc n)) p s u = Ok (join ''|'' [''string'', ''number''], s)"
      using general[of "Suc n" "[''string'', ''number'']" s] by (simp del: getTypeReference.simps)
    then show ?thesis by (simp del: getTypeReference.simps)
  qed
  from general particular show ?thesis by blast
qed

theorem union_reference_joins_options_witness:
  "types exampleProgram 2 = UnionType [0, 1] \<and>
   resolvedInOrder (Suc 0) exampleProgram createTsEmitter [0, 1] [''string'', ''number''] createTsEmitter \<and>
   getTypeReference (Suc (Suc 0)) exampleProgram createTsEmitter 2 = Ok (''string|number'', createTsEmitter)"
proof -
  have a: "getTypeReference (Suc 0) exampleProgram createTsEmitter 0 = Ok (''string'', createTsEmitter)"
    by (simp add: exampleProgram_def exampleTypes_def exampleIntrinsics_def createTsEmitter_def
        generateModelType_def instrinsicNameToTSType_def)
  have b: "getTypeReference (Suc 0) exampleProgram createTsEmitter 1 = Ok (''number'', createTsEmitter)"
    by (simp add: exampleProgram_def exampleTypes_def exampleIntrinsics_def createTsEmitter_def
        generateModelType_def instrinsicNameToTSType_def)
  have "resolvedInOrder (Suc 0) exampleProgram createTsEmitter [1] [''number''] createTsEmitter"
    using b no_option by (rule option)
  with a have r: "resolvedInOrder (Suc 0) exampleProgram createTsEmitter [0, 1] [''string'', ''number''] createTsEmitter"
    by (rule option)
  have j: "join ''|'' [''string'', ''number''] = ''string|number''" by simp
  from union_reference_joins_options[OF example_types(1) example_memo_fresh, of "Suc 0"] r
  have "getTypeReference (Suc (Suc 0)) exampleProgram createTsEmitter 2 =
          Ok (join ''|'' [''string'', ''number''], createTsEmitter)"
    by blast
  with r example_types(1) show ?thesis by (simp only: j simp_thms)
qed

text \<open>
  Resolving a union can append a declaration, that of an option: on a new emitter
  the union \<open>User | string | User\<close> resolves to \<open>User|string|User\<close>, and the
  declaration list, empty before, holds the declaration of \<open>User\<close> afterwards (once:
  the second occurrence of \<open>User\<close> is answered from the memo table).
\<close>

theorem union_option_declared_counterexample:
  "types exampleProgram 13 = UnionType [3, 0, 3] \<and>
   typeDecls createTsEmitter = [] \<and>
   getTypeReference (Suc (Suc (Suc 0))) exampleProgram createTsEmitter 13 =
     Ok (''User|string|User'',
         \<lparr>typeDecls = [typeStr ''User'' [''name: string'']], knownTypes = [3 \<mapsto> ''User'']\<rparr>)"
  by (simp add: exampleProgram_def exampleTypes_def exampleIntrinsics_def createTsEmitter_def
      generateModelType_def instrinsicNameToTSType_def propText_def)

section \<open>Name synthesis\<close>

lemma parameterName_sound:
  assumes "\<And>nm targs x. declName nm targs = Ok x \<Longrightarrow> synthesizedName p nm targs x"
    and "parameterName declName p t = Ok x"
  shows "argumentName p t x"
proof (cases "types p t")
  case (ModelType nm ps targs)
  with assms(2) have "declName nm targs = Ok x" by (simp add: parameterName_def)
  then have "synthesizedName p nm targs x" by (rule assms(1))
  with ModelType show ?thesis by (rule model_argument)
next
  case (ArrayType e)
  show ?thesis
  proof (cases "types p e")
    case (ModelType nm ps targs)
    with ArrayType assms(2) obtain y where y: "declName nm targs = Ok y" and x: "x = y @ ''Array''"
      by (auto simp: parameterName_def andThen_Ok)
    from y have "synthesizedName p nm targs y" by (rule assms(1))
    with ArrayType ModelType show ?thesis unfolding x by (rule array_argument)
  qed (use ArrayType assms(2) in \<open>simp_all add: parameterName_def\<close>)
qed (use assms(2) in \<open>simp_all add: parameterName_def\<close>)

lemma parameterNames_sound:
  assumes "\<And>nm targs x. declName nm targs = Ok x \<Longrightarrow> synthesizedName p nm targs x"
  shows "parameterNames declName p ts = Ok xs \<Longrightarrow> argumentNames p ts xs"
proof (induction ts arbitrary: xs)
  case Nil
  then show ?case by (auto intro: no_argument)
next
  case (Cons t ts)
  then obtain y ys where y: "parameterName declName p t = Ok y"
    and ys: "parameterNames declName p ts = Ok ys" and xs: "xs = y # ys"
    by (auto simp: andThen_Ok)
  from assms y have "argumentName p t y" by (rule parameterName_sound)
  moreover from ys have "argumentNames p ts ys" by (rule Cons.IH)
  ultimately show ?case unfolding xs by (rule argument)
qed

lemma getModelDeclarationName_sound:
  "getModelDeclarationName n p nm targs = Ok x \<Longrightarrow> synthesizedName p nm targs x"
proof (induction n arbitrary: nm targs x)
  case 0
  then show ?case by simp
next
  case (Suc n)
  show ?case
  proof (cases "targs = None \<or> targs = Some []")
    case True
    with Suc.prems have "x = nm" by auto
    with True show ?thesis by (simp add: own_name)
  next
    case False
    then obtain ts where ts: "targs = Some ts" "ts \<noteq> []" by auto
    with Suc.prems obtain xs where xs: "parameterNames (getModelDeclarationName n p) p ts = Ok xs"
      and x: "x = nm @ concat xs"
      by (auto simp: andThen_Ok)
    from Suc.IH xs have "argumentNames p ts xs" by (rule parameterNames_sound)
    with ts(2) show ?thesis unfolding x ts(1) by (rule instantiated)
  qed
qed

lemma eventually_conj:
  assumes "\<exists>k. \<forall>m\<ge>k. P m" and "\<exists>k. \<forall>m\<ge>k. Q (m::nat)"
  shows "\<exists>k. \<forall>m\<ge>k. P m \<and> Q m"
proof -
  from assms obtain a b where "\<forall>m\<ge>a. P m" "\<forall>m\<ge>b. Q m" by blast
  then have "\<forall>m\<ge>max a b. P m \<and> Q m" by simp
  then show ?thesis ..
qed

lemma eventually_mono:
  assumes "\<exists>k. \<forall>m\<ge>k. P (m::nat)" and "\<And>m. P m \<Longrightarrow> Q m"
  shows "\<exists>k. \<forall>m\<ge>k. Q m"
  using assms by blast

lemma eventually_Suc:
  assumes "\<exists>k. \<forall>m\<ge>k. P (m::nat)"
  shows "\<exists>k. \<forall>m\<ge>k. \<exists>m'. m = Suc m' \<and> P m'"
proof -
  from assms obtain k where k: "\<forall>m\<ge>k. P m" ..
  have "\<forall>m\<ge>Suc k. \<exists>m'. m = Suc m' \<and> P m'"
  proof (intro allI impI)
    fix m assume "Suc k \<le> m"
    then obtain m' where "m = Suc m'" "k \<le> m'" by (cases m) auto
    with k show "\<exists>m'. m = Suc m' \<and> P m'" by simp
  qed
  then show ?thesis ..
qed

lemma getModelDeclarationName_complete:
  "synthesizedName p nm targs x \<Longrightarrow> \<exists>k. \<forall>m\<ge>k. getModelDeclarationName m p nm targs = Ok x"
  "argumentNames p ts xs \<Longrightarrow> \<exists>k. \<forall>m\<ge>k. parameterNames (getModelDeclarationName m p) p ts = Ok xs"
  "argumentName p t y \<Longrightarrow> \<exists>k. \<forall>m\<ge>k. parameterName (getModelDeclarationName m p) p t = Ok y"
proof (induction rule: synthesizedName_argumentNames_argumentName.inducts)
  case (own_name targs nm)
  have "\<forall>m\<ge>Suc 0. getModelDeclarationName m p nm targs = Ok nm"
  proof (intro allI impI)
    fix m :: nat assume "Suc 0 \<le> m"
    then obtain m' where "m = Suc m'" by (cases m) auto
    with own_name show "getModelDeclarationName m p nm targs = Ok nm" by auto
  qed
  then show ?case ..
next
  case (instantiated ts xs nm)
  from instantiated have "\<exists>k. \<forall>m\<ge>k. parameterNames (getModelDeclarationName m p) p ts = Ok xs"
    by blast
  from eventually_Suc[OF this]
  show ?case
  proof (rule eventually_mono)
    fix m assume "\<exists>m'. m = Suc m' \<and> parameterNames (getModelDeclarationName m' p) p ts = Ok xs"
    with instantiated(1) show "getModelDeclarationName m p nm (Some ts) = Ok (nm @ concat xs)"
      by auto
  qed
next
  case no_argument
  show ?case by simp
next
  case (argument t x ts xs)
  from argument have "\<exists>k. \<forall>m\<ge>k. parameterName (getModelDeclarationName m p) p t = Ok x"
    and "\<exists>k. \<forall>m\<ge>k. parameterNames (getModelDeclarationName m p) p ts = Ok xs"
    by blast+
  from eventually_conj[OF this]
  show ?case by (rule eventually_mono) simp
next
  case (model_argument t nm ps targs x)
  from model_argument have "\<exists>k. \<forall>m\<ge>k. getModelDeclarationName m p nm targs = Ok x"
    by blast
  then show ?case
    by (rule eventually_mono) (simp add: parameterName_def model_argument(1))
next
  case (array_argument t e nm ps targs x)
  from array_argument have "\<exists>k. \<forall>m\<ge>k. getModelDeclarationName m p nm targs = Ok x"
    by blast
  then show ?case
    by (rule eventually_mono) (simp add: parameterName_def array_argument(1,2))
qed

lemma argumentName_supported:
  assumes "argumentName p t y"
  shows "\<not> unsupportedArgument p t"
  using assms
proof (cases rule: argumentName.cases)
  case (model_argument nm ps targs)
  then show ?thesis by (simp add: unsupportedArgument_def)
next
  case (array_argument e nm ps targs x)
  then show ?thesis by (simp add: unsupportedArgument_def)
qed

lemma argumentNames_member:
  "argumentNames p ts xs \<Longrightarrow> t \<in> set ts \<Longrightarrow> \<exists>y. argumentName p t y"
proof (induction ts arbitrary: xs)
  case Nil
  then show ?case by simp
next
  case (Cons a ts)
  from Cons.prems(1) obtain y ys where "argumentName p a y" "argumentNames p ts ys"
    by (cases rule: argumentNames.cases) auto
  with Cons.IH Cons.prems(2) show ?case by auto
qed

lemma unsupported_never_named:
  assumes "t \<in> set ts" and "unsupportedArgument p t"
  shows "getModelDeclarationName m p nm (Some ts) \<noteq> Ok x"
proof
  assume "getModelDeclarationName m p nm (Some ts) = Ok x"
  then have "synthesizedName p nm (Some ts) x" by (rule getModelDeclarationName_sound)
  then obtain xs where "argumentNames p ts xs"
    using assms(1) by (cases rule: synthesizedName.cases) auto
  with assms(1) obtain y where "argumentName p t y" by (auto dest: argumentNames_member)
  with assms(2) show False by (auto dest: argumentName_supported)
qed

lemma parameterName_unsupported:
  "unsupportedArgument p t \<Longrightarrow> parameterName declName p t = Throw UnsupportedTemplateArgument"
  by (auto simp: unsupportedArgument_def parameterName_def split: Type.splits)

lemma parameterNames_throw_after:
  "parameterNames d p pre = Ok xs \<Longrightarrow> parameterName d p t = Throw e \<Longrightarrow>
   parameterNames d p (pre @ t # post) = Throw e"
  by (induction pre arbitrary: xs) (auto simp: andThen_Ok)

lemma unsupported_throws:
  assumes "argumentNames p pre xs" and "unsupportedArgument p t"
  shows "\<exists>k. \<forall>m\<ge>k. getModelDeclarationName m p nm (Some (pre @ t # post)) = Throw UnsupportedTemplateArgument"
proof -
  from assms(1) have "\<exists>k. \<forall>m\<ge>k. parameterNames (getModelDeclarationName m p) p pre = Ok xs"
    by (rule getModelDeclarationName_complete(2))
  from eventually_Suc[OF this] show ?thesis
  proof (rule eventually_mono)
    fix m assume "\<exists>m'. m = Suc m' \<and> parameterNames (getModelDeclarationName m' p) p pre = Ok xs"
    then obtain m' where m: "m = Suc m'"
      and pre: "parameterNames (getModelDeclarationName m' p) p pre = Ok xs" by blast
    from assms(2) have "parameterName (getModelDeclarationName m' p) p t = Throw UnsupportedTemplateArgument"
      by (rule parameterName_unsupported)
    with pre have "parameterNames (getModelDeclarationName m' p) p (pre @ t # post) = Throw UnsupportedTemplateArgument"
      by (rule parameterNames_throw_after)
    then show "getModelDeclarationName m p nm (Some (pre @ t # post)) = Throw UnsupportedTemplateArgument"
      unfolding m by simp
  qed
qed

lemma example_types2:
  "types exampleProgram 4 = ArrayType 3"
  "types exampleProgram 2 = UnionType [0, 1]"
  by (simp_all add: exampleProgram_def exampleTypes_def)

text \<open>
  C4. The declaration name of a model. A model without template arguments (none, or
  an empty list) has its own name. In general \<open>getModelDeclarationName\<close> returns \<open>x\<close>
  at every sufficient depth exactly when \<open>x\<close> is the synthesized name of the
  specification: the name followed by what each argument contributes, in order, with
  no separator. When an argument is neither a model nor an array of a model, no name
  is ever returned, and the unsupported-argument error is thrown once the arguments
  before it have names. \<open>Page<User>\<close> is named \<open>PageUser\<close> and \<open>Page<User[]>\<close>
  \<open>PageUserArray\<close> (for any base name and any argument model without template
  arguments of its own).
\<close>

theorem declaration_name_synthesis:
  "(targs = None \<or> targs = Some [] \<longrightarrow> getModelDeclarationName (Suc n) p nm targs = Ok nm) \<and>
   (\<forall>x. synthesizedName p nm targs x \<longleftrightarrow> (\<exists>k. \<forall>m\<ge>k. getModelDeclarationName m p nm targs = Ok x)) \<and>
   (\<forall>pre t post xs. targs = Some (pre @ t # post) \<and> argumentNames p pre xs \<and> unsupportedArgument p t \<longrightarrow>
      (\<exists>k. \<forall>m\<ge>k. getModelDeclarationName m p nm targs = Throw UnsupportedTemplateArgument)) \<and>
   (\<forall>ts t. targs = Some ts \<and> t \<in> set ts \<and> unsupportedArgument p t \<longrightarrow>
      (\<forall>m x. getModelDeclarationName m p nm targs \<noteq> Ok x)) \<and>
   (\<forall>u nmU psU. targs = Some [u] \<and> types p u = ModelType nmU psU None \<longrightarrow>
      getModelDeclarationName (Suc (Suc n)) p nm targs = Ok (nm @ nmU)) \<and>
   (\<forall>a u nmU psU. targs = Some [a] \<and> types p a = ArrayType u \<and> types p u = ModelType nmU psU None \<longrightarrow>
      getModelDeclarationName (Suc (Suc n)) p nm targs = Ok (nm @ nmU @ ''Array''))"
proof -
  have 1: "targs = None \<or> targs = Some [] \<longrightarrow> getModelDeclarationName (Suc n) p nm targs = Ok nm"
    by auto
  have 2: "\<forall>x. synthesizedName p nm targs x \<longleftrightarrow> (\<exists>k. \<forall>m\<ge>k. getModelDeclarationName m p nm targs = Ok x)"
  proof (intro allI iffI)
    fix x assume "synthesizedName p nm targs x"
    then show "\<exists>k. \<forall>m\<ge>k. getModelDeclarationName m p nm targs = Ok x"
      by (rule getModelDeclarationName_complete(1))
  next
    fix x assume "\<exists>k. \<forall>m\<ge>k. getModelDeclarationName m p nm targs = Ok x"
    then obtain k where "getModelDeclarationName k p nm targs = Ok x" by blast
    then show "synthesizedName p nm targs x" by (rule getModelDeclarationName_sound)
  qed
  have 3: "\<forall>pre t post xs. targs = Some (pre @ t # post) \<and> argumentNames p pre xs \<and> unsupportedArgument p t \<longrightarrow>
      (\<exists>k. \<forall>m\<ge>k. getModelDeclarationName m p nm targs = Throw UnsupportedTemplateArgument)"
    using unsupported_throws by blast
  have 4: "\<forall>ts t. targs = Some ts \<and> t \<in> set ts \<and> unsupportedArgument p t \<longrightarrow>
      (\<forall>m x. getModelDeclarationName m p nm targs \<noteq> Ok x)"
    using unsupported_never_named by blast
  have 5: "\<forall>u nmU psU. targs = Some [u] \<and> types p u = ModelType nmU psU None \<longrightarrow>
      getModelDeclarationName (Suc (Suc n)) p nm targs = Ok (nm @ nmU)"
    by (simp add: parameterName_def)
  have 6: "\<forall>a u nmU psU. targs = Some [a] \<and> types p a = ArrayType u \<and> types p u = ModelType nmU psU None \<longrightarrow>
      getModelDeclarationName (Suc (Suc n)) p nm targs = Ok (nm @ nmU @ ''Array'')"
    by (simp add: parameterName_def)
  from 1 2 3 4 5 6 show ?thesis by (intro conjI)
qed

theorem declaration_name_synthesis_witness:
  "getModelDeclarationName (Suc 0) exampleProgram ''User'' None = Ok ''User'' \<and>
   types exampleProgram 3 = ModelType ''User'' [ModelTypeProperty ''name'' False 0] None \<and>
   getModelDeclarationName (Suc (Suc 0)) exampleProgram ''Page'' (Some [3]) = Ok ''PageUser'' \<and>
   types exampleProgram 4 = ArrayType 3 \<and>
   getModelDeclarationName (Suc (Suc 0)) exampleProgram ''Page'' (Some [4]) = Ok ''PageUserArray'' \<and>
   synthesizedName exampleProgram ''Page'' (Some [4]) ''PageUserArray'' \<and>
   (\<exists>k. \<forall>m\<ge>k. getModelDeclarationName m exampleProgram ''Page'' (Some [4]) = Ok ''PageUserArray'') \<and>
   unsupportedArgument exampleProgram 2 \<and> argumentNames exampleProgram [3] [''User''] \<and>
   (\<exists>k. \<forall>m\<ge>k. getModelDeclarationName m exampleProgram ''Page'' (Some [3, 2, 4]) =
      Throw UnsupportedTemplateArgument) \<and>
   (\<forall>m x. getModelDeclarationName m exampleProgram ''Page'' (Some [3, 2, 4]) \<noteq> Ok x)"
proof -
  note user = example_types(4)
  note arr = example_types2(1)
  note own = declaration_name_synthesis[where targs = None and n = 0 and p = exampleProgram
      and nm = "''User''", THEN conjunct1]
  note page3 = declaration_name_synthesis[where targs = "Some [3]" and n = 0 and p = exampleProgram
      and nm = "''Page''", THEN conjunct2, THEN conjunct2, THEN conjunct2, THEN conjunct2,
      THEN conjunct1, rule_format, OF conjI, OF refl user]
  note page4 = declaration_name_synthesis[where targs = "Some [4]" and n = 0 and p = exampleProgram
      and nm = "''Page''", THEN conjunct2, THEN conjunct2, THEN conjunct2, THEN conjunct2,
      THEN conjunct2, rule_format, OF conjI, OF refl conjI, OF arr user]
  note iff4 = declaration_name_synthesis[where targs = "Some [4]" and n = 0 and p = exampleProgram
      and nm = "''Page''", THEN conjunct2, THEN conjunct1, THEN spec, THEN iffD1]
  have 1: "getModelDeclarationName (Suc 0) exampleProgram ''User'' None = Ok ''User''"
    using own by (simp only: simp_thms)
  have 2: "getModelDeclarationName (Suc (Suc 0)) exampleProgram ''Page'' (Some [3]) = Ok ''PageUser''"
    using page3 by (simp only: append.simps)
  have 3: "getModelDeclarationName (Suc (Suc 0)) exampleProgram ''Page'' (Some [4]) = Ok ''PageUserArray''"
    using page4 by (simp only: append.simps)
  have u: "synthesizedName exampleProgram ''User'' None ''User''"
    by (rule own_name) (rule disjI1, rule refl)
  from user u have a3: "argumentName exampleProgram 3 ''User''" by (rule model_argument)
  from arr user u have "argumentName exampleProgram 4 (''User'' @ ''Array'')" by (rule array_argument)
  then have "argumentNames exampleProgram [4] [''User'' @ ''Array'']"
    using no_argument by (rule argument)
  then have "synthesizedName exampleProgram ''Page'' (Some [4]) (''Page'' @ concat [''User'' @ ''Array''])"
    by (intro instantiated) simp
  then have 4: "synthesizedName exampleProgram ''Page'' (Some [4]) ''PageUserArray''"
    by simp
  from iff4[OF 4]
  have 5: "\<exists>k. \<forall>m\<ge>k. getModelDeclarationName m exampleProgram ''Page'' (Some [4]) = Ok ''PageUserArray''" .
  have 6: "unsupportedArgument exampleProgram 2"
    by (simp add: unsupportedArgument_def example_types2(2))
  from a3 no_argument have 7: "argumentNames exampleProgram [3] [''User'']" by (rule argument)
  have e: "Some [3, 2, 4] = Some ([3] @ 2 # [4::nat])" by simp
  note thr = declaration_name_synthesis[where targs = "Some [3, 2, 4]" and n = 0 and p = exampleProgram
      and nm = "''Page''", THEN conjunct2, THEN conjunct2, THEN conjunct1, rule_format,
      OF conjI, OF e conjI, OF 7 6]
  have m: "(2::nat) \<in> set [3, 2, 4]" by simp
  note never = declaration_name_synthesis[where targs = "Some [3, 2, 4]" and n = 0 and p = exampleProgram
      and nm = "''Page''", THEN conjunct2, THEN conjunct2, THEN conjunct2, THEN conjunct1, rule_format,
      OF conjI, OF refl conjI, OF m 6]
  have 9: "\<forall>m x. getModelDeclarationName m exampleProgram ''Page'' (Some [3, 2, 4]) \<noteq> Ok x"
    using never by (intro allI)
  show ?thesis
    by (intro conjI 1 user 2 arr 3 4 5 6 7 thr 9)
qed

section \<open>The builder and the registrations\<close>

lemma parameterName_stateMap [simp]:
  "parameterName d (p\<lparr>stateMap := m\<rparr>) t = parameterName d p t"
  by (simp add: parameterName_def split: Type.splits)

lemma parameterNames_stateMap [simp]:
  "parameterNames d (p\<lparr>stateMap := m\<rparr>) ts = parameterNames d p ts"
  by (induction ts) simp_all

lemma getModelDeclarationName_stateMap [simp]:
  "getModelDeclarationName n (p\<lparr>stateMap := m\<rparr>) = getModelDeclarationName n p"
  by (induction n) (simp_all cong: option.case_cong if_cong)

lemma generateModelType_stateMap [simp]:
  "generateModelType ref d (p\<lparr>stateMap := m\<rparr>) = generateModelType ref d p"
  by (intro ext) (simp add: generateModelType_def split: option.splits)

lemma getTypeReference_stateMap [simp]:
  "getTypeReference n (p\<lparr>stateMap := m\<rparr>) = getTypeReference n p"
  by (induction n) (simp_all cong: option.case_cong Type.case_cong)

lemma emitStoreInterface_stateMap [simp]:
  "emitStoreInterface n pathJoin (p\<lparr>stateMap := m\<rparr>) opts s model c =
   emitStoreInterface n pathJoin p opts s model c"
  by (simp add: emitStoreInterface_def)

lemma emitStoreInterface_ignores_collectionName:
  "emitStoreInterface n pathJoin p opts s model c = emitStoreInterface n pathJoin p opts s model c'"
  by (simp add: emitStoreInterface_def)

lemma emitLoop_stateMap [simp]:
  "emitLoop n pathJoin (p\<lparr>stateMap := m\<rparr>) opts s regs = emitLoop n pathJoin p opts s regs"
  by (induction regs arbitrary: s) (auto split: result.splits prod.splits)

lemma emitLoop_roots_only:
  "map fst regs = map fst regs' \<Longrightarrow>
   emitLoop n pathJoin p opts s regs = emitLoop n pathJoin p opts s regs'"
proof (induction regs arbitrary: regs' s)
  case Nil
  then show ?case by simp
next
  case (Cons reg regs)
  then obtain reg' rest' where regs': "regs' = reg' # rest'" and root: "fst reg = fst reg'"
    and rest: "map fst regs = map fst rest'"
    by (cases regs') auto
  obtain model c c' where reg: "reg = (model, c)" "reg' = (model, c')"
    using root by (cases reg, cases reg') auto
  have same: "emitStoreInterface n pathJoin p opts s model a = emitStoreInterface n pathJoin p opts s model b"
    for a b by (rule emitStoreInterface_ignores_collectionName)
  show ?case
    unfolding regs' reg emitLoop.simps
    using Cons.IH[OF rest] same[of "nullish c (case nameField (types p model) of None \<Rightarrow> Undefined | Some nm \<Rightarrow> StrVal nm)"
        "nullish c' (case nameField (types p model) of None \<Rightarrow> Undefined | Some nm \<Rightarrow> StrVal nm)"]
    by (simp split: result.splits prod.splits)
qed

text \<open>
  C9. The files written and their paths depend on the registered roots only: two
  programs that differ only in the values recorded for the registrations (the
  collection names), with the same roots in the same order, give the same result of
  \<open>emit\<close> and of \<open>onEmit\<close> (the same events, hence the same paths and texts, and the
  same outcome), and \<open>emitStoreInterface\<close> does not depend on its \<open>collectionName\<close>
  argument.
\<close>

theorem artifacts_independent_of_collection_names:
  assumes "map fst regs = map fst regs'"
  shows "emit n pathJoin (p\<lparr>stateMap := regs\<rparr>) opts s = emit n pathJoin (p\<lparr>stateMap := regs'\<rparr>) opts s \<and>
         onEmit n pathJoin (p\<lparr>stateMap := regs\<rparr>) = onEmit n pathJoin (p\<lparr>stateMap := regs'\<rparr>) \<and>
         emitStoreInterface n pathJoin p opts s model c = emitStoreInterface n pathJoin p opts s model c'"
proof -
  from assms have loop: "emitLoop n pathJoin p o' s' regs = emitLoop n pathJoin p o' s' regs'" for o' s'
    by (rule emitLoop_roots_only)
  have 1: "emit n pathJoin (p\<lparr>stateMap := regs\<rparr>) o' s' = emit n pathJoin (p\<lparr>stateMap := regs'\<rparr>) o' s'"
    for o' s'
    by (simp add: emit_def loop)
  have 2: "onEmit n pathJoin (p\<lparr>stateMap := regs\<rparr>) = onEmit n pathJoin (p\<lparr>stateMap := regs'\<rparr>)"
    unfolding onEmit_def using 1 by simp
  from 1 2 emitStoreInterface_ignores_collectionName show ?thesis by (intro conjI)
qed

theorem artifacts_independent_of_collection_names_witness:
  "map fst [(11, BoolVal False), (12, BoolVal False)] = map fst [(11::nat, StrVal ''as''), (12, Undefined)] \<and>
   onEmit 3 examplePathJoin (exampleProgram\<lparr>stateMap := [(11, BoolVal False), (12, BoolVal False)]\<rparr>) =
   onEmit 3 examplePathJoin (exampleProgram\<lparr>stateMap := [(11, StrVal ''as''), (12, Undefined)]\<rparr>)"
proof -
  have a: "map fst [(11, BoolVal False), (12, BoolVal False)] = map fst [(11::nat, StrVal ''as''), (12, Undefined)]"
    by simp
  from artifacts_independent_of_collection_names[OF a, THEN conjunct2, THEN conjunct1] a
  show ?thesis by (rule conjI[rotated])
qed

section \<open>The memo table across roots\<close>

text \<open>
  The memo table is created once, in \<open>createTsEmitter\<close>, and \<open>emitStoreInterface\<close>
  empties the declaration list only. A root that an earlier pass has resolved is found
  in the memo table, and its file holds the template and no declaration.
\<close>

lemma root_already_known:
  assumes "knownTypes s model = Some r"
  shows "emitStoreInterface (Suc n) pathJoin p opts s model c =
     Ok (WriteFile (pathJoin (outputDir opts) (nameText (types p model) @ ''.ts''))
           (storeCode (nameText (types p model))),
         s\<lparr>typeDecls := []\<rparr>)"
  using assms by (simp add: emitStoreInterface_def)

text \<open>
  C1. The specification has each root start with a fresh memo table; the code does
  not. In the example program the stores are \<open>A { b: B }\<close> and \<open>B {}\<close>, in this
  order. At every depth of at least three, the file of \<open>A\<close> holds the declarations
  of \<open>B\<close> and \<open>A\<close>, and the file of \<open>B\<close>, written next, holds the template only:
  \<open>B\<close> is referenced there and declared nowhere in the file. On a new emitter the
  same root \<open>B\<close> gives a file with the declaration of \<open>B\<close>.
\<close>

theorem memo_table_kept_between_roots:
  "\<forall>n. fst (onEmit (Suc (Suc (Suc n))) examplePathJoin exampleProgram) =
         [Mkdir ''out/store'',
          WriteFile ''out/store/A.ts''
            (storeCode ''A'' @ typeStr ''B'' [] @ [CHR 0x0A] @ typeStr ''A'' [''b: B''] @ [CHR 0x0A]),
          WriteFile ''out/store/B.ts'' (storeCode ''B'')] \<and>
       emitStoreInterface (Suc (Suc (Suc n))) examplePathJoin exampleProgram \<lparr>outputDir = ''out/store''\<rparr>
           createTsEmitter 12 (BoolVal False) =
         Ok (WriteFile ''out/store/B.ts'' (storeCode ''B'' @ typeStr ''B'' [] @ [CHR 0x0A]),
             \<lparr>typeDecls = [typeStr ''B'' []], knownTypes = [12 \<mapsto> ''B'']\<rparr>)"
  by (simp add: onEmit_def emit_def emitStoreInterface_def exampleProgram_def exampleTypes_def
      exampleIntrinsics_def createTsEmitter_def generateModelType_def propText_def examplePathJoin_def)

section \<open>Cycles\<close>

text \<open>
  The memo entry of a model is written after its properties have been resolved, so
  the resolution of a property of the model's own type finds no entry and starts the
  model again. A composite model with such a property, not yet in the memo table, has
  no result at any depth; the second part of the statement (no resolution gives the
  model a memo entry) carries the induction.
\<close>

lemma propRefs_keeps_unknown:
  assumes "\<And>s x r s'. knownTypes s t = None \<Longrightarrow> ref s x = Ok (r, s') \<Longrightarrow> knownTypes s' t = None"
  shows "knownTypes s t = None \<Longrightarrow> propRefs ref s props = Ok (rs, s') \<Longrightarrow> knownTypes s' t = None"
proof (induction props arbitrary: s rs)
  case Nil
  then show ?case by simp
next
  case (Cons a props)
  from Cons.prems(2) obtain r s1 rs' where a: "ref s (propType a) = Ok (r, s1)"
    and rest: "propRefs ref s1 props = Ok (rs', s')"
    by (auto simp: andThen_Ok)
  from Cons.prems(1) a have "knownTypes s1 t = None" by (rule assms)
  then show ?case using rest by (rule Cons.IH)
qed

lemma optionRefs_keeps_unknown:
  assumes "\<And>s x r s'. knownTypes s t = None \<Longrightarrow> ref s x = Ok (r, s') \<Longrightarrow> knownTypes s' t = None"
  shows "knownTypes s t = None \<Longrightarrow> optionRefs ref s os = Ok (rs, s') \<Longrightarrow> knownTypes s' t = None"
proof (induction os arbitrary: s rs)
  case Nil
  then show ?case by simp
next
  case (Cons a os)
  from Cons.prems(2) obtain r s1 rs' where a: "ref s a = Ok (r, s1)"
    and rest: "optionRefs ref s1 os = Ok (rs', s')"
    by (auto simp: andThen_Ok)
  from Cons.prems(1) a have "knownTypes s1 t = None" by (rule assms)
  then show ?case using rest by (rule Cons.IH)
qed

lemma propRefs_self_reference:
  assumes keep: "\<And>s x r s'. knownTypes s t = None \<Longrightarrow> ref s x = Ok (r, s') \<Longrightarrow> knownTypes s' t = None"
    and never: "\<And>s r s'. knownTypes s t = None \<Longrightarrow> ref s t \<noteq> Ok (r, s')"
  shows "q \<in> set props \<Longrightarrow> propType q = t \<Longrightarrow> knownTypes s t = None \<Longrightarrow>
         propRefs ref s props \<noteq> Ok (rs, s')"
proof (induction props arbitrary: s rs)
  case Nil
  then show ?case by simp
next
  case (Cons a props)
  show ?case
  proof
    assume "propRefs ref s (a # props) = Ok (rs, s')"
    then obtain r s1 rs' where a: "ref s (propType a) = Ok (r, s1)"
      and rest: "propRefs ref s1 props = Ok (rs', s')"
      by (auto simp: andThen_Ok)
    from Cons.prems(3) a have s1: "knownTypes s1 t = None" by (rule keep)
    show False
    proof (cases "a = q")
      case True
      with a Cons.prems(2) have "ref s t = Ok (r, s1)" by simp
      with never[OF Cons.prems(3), of r s1] show False by (rule notE)
    next
      case False
      with Cons.prems(1) have "q \<in> set props" by simp
      from Cons.IH[OF this Cons.prems(2) s1, of rs'] rest show False by (rule notE)
    qed
  qed
qed

lemma self_reference_never_resolves:
  assumes ty: "types p t = ModelType nm props targs"
    and ni: "\<not> truthy (getIntrinsicModelName p t)"
    and q: "q \<in> set props" "propType q = t"
  shows "(\<forall>s r s'. knownTypes s t = None \<longrightarrow> getTypeReference n p s t \<noteq> Ok (r, s')) \<and>
         (\<forall>s x r s'. knownTypes s t = None \<longrightarrow> getTypeReference n p s x = Ok (r, s') \<longrightarrow>
            knownTypes s' t = None)"
proof (induction n)
  case 0
  show ?case by simp
next
  case (Suc n)
  from Suc have never: "\<And>s r s'. knownTypes s t = None \<Longrightarrow> getTypeReference n p s t \<noteq> Ok (r, s')"
    and keep: "\<And>s x r s'. knownTypes s t = None \<Longrightarrow> getTypeReference n p s x = Ok (r, s') \<Longrightarrow>
            knownTypes s' t = None"
    by blast+
  have 1: "getTypeReference (Suc n) p s t \<noteq> Ok (r, s')" if un: "knownTypes s t = None" for s r s'
  proof
    assume "getTypeReference (Suc n) p s t = Ok (r, s')"
    with un ty ni obtain prs s1 where pr: "propRefs (getTypeReference n p) s props = Ok (prs, s1)"
      by (auto simp: generateModelType_def andThen_Ok)
    have "propRefs (getTypeReference n p) s props \<noteq> Ok (prs, s1)"
      using keep never q un by (rule propRefs_self_reference)
    with pr show False by (rule notE[rotated])
  qed
  have 2: "knownTypes s' t = None"
    if un: "knownTypes s t = None" and ok: "getTypeReference (Suc n) p s x = Ok (r, s')" for s x r s'
  proof (cases "knownTypes s x")
    case (Some v)
    with ok un show ?thesis by auto
  next
    case None
    show ?thesis
    proof (cases "types p x")
      case (ModelType nm' props' targs')
      with None ok
      have gen: "generateModelType (getTypeReference n p) (getModelDeclarationName n p) p s x nm' props' targs'
                  = Ok (r, s')" by simp
      show ?thesis
      proof (cases "truthy (getIntrinsicModelName p x)")
        case True
        with gen have "s' = s" by (auto simp: generateModelType_def split: option.splits)
        with un show ?thesis by simp
      next
        case False
        with gen obtain prs s1 where pr: "propRefs (getTypeReference n p) s props' = Ok (prs, s1)"
          and s': "knownTypes s' = (knownTypes s1)(x \<mapsto> r)"
          by (auto simp: generateModelType_def andThen_Ok)
        from 1[OF un] ok have "x \<noteq> t" by auto
        moreover have "knownTypes s1 t = None"
          using keep un pr by (rule propRefs_keeps_unknown)
        ultimately show ?thesis by (simp add: s')
      qed
    next
      case (ArrayType e)
      with None ok obtain r0 where "getTypeReference n p s e = Ok (r0, s')"
        by (auto simp: generateArrayType_def andThen_Ok)
      with un show ?thesis by (rule keep)
    next
      case (NumericLiteralType v)
      with None ok un show ?thesis by auto
    next
      case (UnionType os)
      with None ok obtain rs where "optionRefs (getTypeReference n p) s os = Ok (rs, s')"
        by (auto simp: andThen_Ok)
      with keep un show ?thesis by (rule optionRefs_keeps_unknown)
    next
      case (OtherType y)
      with None ok un show ?thesis by auto
    qed
  qed
  from 1 2 show ?case by blast
qed

lemma example_Node:
  "types exampleProgram 8 = ModelType ''Node'' [ModelTypeProperty ''next'' True 8] None"
  "getIntrinsicModelName exampleProgram 8 = None"
  by (simp_all add: exampleProgram_def exampleTypes_def exampleIntrinsics_def)

text \<open>
  C2. The specification has the resolution of a model with a self-referential
  property terminate with one declaration; the code does not. For the model
  \<open>Node { next?: Node }\<close> of the example program, on a new emitter,
  \<open>getTypeReference\<close> has no result at any depth (the recursion never ends), and
  neither has a pass with \<open>Node\<close> as its root: no declaration is produced and no
  file is written.
\<close>

theorem self_referential_model_never_resolves:
  "\<forall>n. getTypeReference n exampleProgram createTsEmitter 8 = Diverge \<and>
       emitStoreInterface n examplePathJoin exampleProgram \<lparr>outputDir = ''out/store''\<rparr>
         createTsEmitter 8 (BoolVal False) = Diverge"
proof
  fix n
  have "getTypeReference n exampleProgram s 8 = Diverge" if "knownTypes s 8 = None" for s
  proof (induction n)
    case 0
    show ?case by simp
  next
    case (Suc n)
    have "propRefs (getTypeReference n exampleProgram) s [ModelTypeProperty ''next'' True 8] = Diverge"
      using Suc.IH by simp
    with that show ?case
      by (simp add: example_Node generateModelType_def)
  qed
  then show "getTypeReference n exampleProgram createTsEmitter 8 = Diverge \<and>
       emitStoreInterface n examplePathJoin exampleProgram \<lparr>outputDir = ''out/store''\<rparr>
         createTsEmitter 8 (BoolVal False) = Diverge"
    by (simp add: emitStoreInterface_def createTsEmitter_def)
qed

end
